theory Spec2Isabelle
  imports Main "HOL-Library.Sublist"
begin

section \<open>Data model of \<open>solver.py\<close>\<close>

text \<open>
  \<open>generate_schedule(employees, tasks, days, shifts, preferences, rules)\<close> receives
  lists of dictionaries. An employee dictionary has the keys \<open>id\<close>, \<open>name\<close>,
  \<open>skills\<close> and \<open>unavailable_days\<close>; a task dictionary has \<open>id\<close>, \<open>name\<close>,
  \<open>required_skill\<close> and \<open>priority\<close>. The field names carry a prefix where the
  source's key (\<open>id\<close>, \<open>name\<close>) is shared by both dictionaries. Identities and
  priorities are Python integers; a required skill is a string or \<open>None\<close>.
\<close>

record employee =
  e_id :: int
  e_name :: string
  skills :: "string list"
  unavailable_days :: "string list"

record task =
  t_id :: int
  t_name :: string
  required_skill :: "string option"
  priority :: int

text \<open>One dictionary of the returned schedule list (lines 88-94).\<close>

record entry =
  day :: string
  shift :: string
  employee_id :: int
  employee_name :: string
  task_id :: int
  task_name :: string

text \<open>
  The dictionary \<open>assignment\<close> maps a key \<open>(emp['id'], day, shift, task['id'])\<close> to the
  Boolean variable created last for that key. Every later use of a variable goes through
  this dictionary, so a decision variable is identified with its key.
\<close>

type_synonym var = "int \<times> string \<times> string \<times> int"

definition key :: "employee \<Rightarrow> string \<Rightarrow> string \<Rightarrow> task \<Rightarrow> var" where
  "key emp d s t = (e_id emp, d, s, t_id t)"

text \<open>
  The three shapes of constraint the function posts: \<open>model.AddAtMostOne(vars)\<close>,
  \<open>model.Add(var == 0)\<close> and \<open>model.Add(sum(vars) <= bound)\<close>.
\<close>

datatype constr =
    AtMostOne "var list"
  | EqZero var
  | SumLe "var list" int

text \<open>
  The model handed to the solver: the variables created, the constraints posted and the
  linear objective to maximise, a list of terms \<open>variable * coefficient\<close>.
\<close>

record cp_model =
  variables :: "var list"
  constraints :: "constr list"
  objective :: "(var \<times> int) list"

text \<open>The status values of \<open>cp_model\<close>.\<close>

datatype status = UNKNOWN | MODEL_INVALID | FEASIBLE | INFEASIBLE | OPTIMAL

type_synonym valuation = "var \<Rightarrow> int"

text \<open>
  The solver is the external OR-Tools library. It is a parameter of the model: a function
  from the model built to the status and the values \<open>solver.Value\<close> reports.
\<close>

type_synonym solver = "cp_model \<Rightarrow> status \<times> valuation"

type_synonym preferences = "int \<times> int \<rightharpoonup> int"

type_synonym rules = "string \<rightharpoonup> int"

text \<open>The fixed grid that \<open>get_solver_data\<close> of \<open>app.py\<close> passes (lines 96-97).\<close>

definition DAYS :: "string list" where
  "DAYS = [''Mon'', ''Tue'', ''Wed'', ''Thu'', ''Fri'', ''Sat'', ''Sun'']"

definition SHIFTS :: "string list" where
  "SHIFTS = [''Morning'', ''Evening'']"

section \<open>Building the model (lines 8-73)\<close>

text \<open>Lines 11-16: one variable for each employee, day, shift and task, in this order.\<close>

definition create_variables ::
  "employee list \<Rightarrow> task list \<Rightarrow> string list \<Rightarrow> string list \<Rightarrow> var list" where
  "create_variables employees tasks days shifts =
     [key emp d s t. emp \<leftarrow> employees, d \<leftarrow> days, s \<leftarrow> shifts, t \<leftarrow> tasks]"

text \<open>Lines 20-25: each task is given to at most one employee and slot.\<close>

definition task_at_most_once ::
  "employee list \<Rightarrow> task list \<Rightarrow> string list \<Rightarrow> string list \<Rightarrow> constr list" where
  "task_at_most_once employees tasks days shifts =
     [AtMostOne [key emp d s t. emp \<leftarrow> employees, d \<leftarrow> days, s \<leftarrow> shifts]. t \<leftarrow> tasks]"

text \<open>Lines 27-33: \<open>task['required_skill'] not in emp['skills']\<close> forces the variable to 0.\<close>

definition lacks_skill :: "employee \<Rightarrow> task \<Rightarrow> bool" where
  "lacks_skill emp t = (required_skill t \<notin> set (map Some (skills emp)))"

definition skill_gate ::
  "employee list \<Rightarrow> task list \<Rightarrow> string list \<Rightarrow> string list \<Rightarrow> constr list" where
  "skill_gate employees tasks days shifts =
     [EqZero (key emp d s t).
        emp \<leftarrow> employees, d \<leftarrow> days, s \<leftarrow> shifts, t \<leftarrow> tasks, lacks_skill emp t]"

text \<open>Lines 35-41: an unavailable day that is a day of the grid forces its variables to 0.\<close>

definition availability_gate ::
  "employee list \<Rightarrow> task list \<Rightarrow> string list \<Rightarrow> string list \<Rightarrow> constr list" where
  "availability_gate employees tasks days shifts =
     [EqZero (key emp d s t).
        emp \<leftarrow> employees, d \<leftarrow> unavailable_days emp, d \<in> set days, s \<leftarrow> shifts, t \<leftarrow> tasks]"

text \<open>Lines 43-49: an employee does at most one task in a slot.\<close>

definition slot_at_most_once ::
  "employee list \<Rightarrow> task list \<Rightarrow> string list \<Rightarrow> string list \<Rightarrow> constr list" where
  "slot_at_most_once employees tasks days shifts =
     [AtMostOne [key emp d s t. t \<leftarrow> tasks]. emp \<leftarrow> employees, d \<leftarrow> days, s \<leftarrow> shifts]"

text \<open>Line 52: \<open>rules.get('max_shifts_per_week', 7)\<close>.\<close>

definition max_shifts :: "rules \<Rightarrow> int" where
  "max_shifts rules = (case rules ''max_shifts_per_week'' of None \<Rightarrow> 7 | Some v \<Rightarrow> v)"

text \<open>Lines 53-59: the weekly cap of each employee.\<close>

definition weekly_cap ::
  "employee list \<Rightarrow> task list \<Rightarrow> string list \<Rightarrow> string list \<Rightarrow> rules \<Rightarrow> constr list" where
  "weekly_cap employees tasks days shifts rules =
     [SumLe [key emp d s t. d \<leftarrow> days, s \<leftarrow> shifts, t \<leftarrow> tasks] (max_shifts rules).
        emp \<leftarrow> employees]"

text \<open>Line 70: \<open>preferences.get((emp['id'], task['id']), 0)\<close>.\<close>

definition preference :: "preferences \<Rightarrow> employee \<Rightarrow> task \<Rightarrow> int" where
  "preference prefs emp t = (case prefs (e_id emp, t_id t) of None \<Rightarrow> 0 | Some v \<Rightarrow> v)"

text \<open>Lines 63-73: the sum of the priority terms plus the sum of the preference terms.\<close>

definition objective_terms ::
  "employee list \<Rightarrow> task list \<Rightarrow> string list \<Rightarrow> string list \<Rightarrow> preferences \<Rightarrow> (var \<times> int) list" where
  "objective_terms employees tasks days shifts prefs =
     [(key emp d s t, priority t). emp \<leftarrow> employees, d \<leftarrow> days, s \<leftarrow> shifts, t \<leftarrow> tasks] @
     [(key emp d s t, preference prefs emp t).
        emp \<leftarrow> employees, d \<leftarrow> days, s \<leftarrow> shifts, t \<leftarrow> tasks]"

definition build_model ::
  "employee list \<Rightarrow> task list \<Rightarrow> string list \<Rightarrow> string list \<Rightarrow> preferences \<Rightarrow> rules \<Rightarrow> cp_model" where
  "build_model employees tasks days shifts prefs rules =
     \<lparr> variables = create_variables employees tasks days shifts,
       constraints =
         task_at_most_once employees tasks days shifts @
         skill_gate employees tasks days shifts @
         availability_gate employees tasks days shifts @
         slot_at_most_once employees tasks days shifts @
         weekly_cap employees tasks days shifts rules,
       objective = objective_terms employees tasks days shifts prefs \<rparr>"

section \<open>Extracting the solution (lines 80-103)\<close>

definition mk_entry :: "string \<Rightarrow> string \<Rightarrow> employee \<Rightarrow> task \<Rightarrow> entry" where
  "mk_entry d s emp t =
     \<lparr> day = d, shift = s, employee_id = e_id emp, employee_name = e_name emp,
       task_id = t_id t, task_name = t_name t \<rparr>"

text \<open>Lines 83-95: the loop over days, shifts, employees and tasks, in this order.\<close>

definition extract_schedule ::
  "valuation \<Rightarrow> employee list \<Rightarrow> task list \<Rightarrow> string list \<Rightarrow> string list \<Rightarrow> entry list" where
  "extract_schedule val employees tasks days shifts =
     [mk_entry d s emp t.
        d \<leftarrow> days, s \<leftarrow> shifts, emp \<leftarrow> employees, t \<leftarrow> tasks, val (key emp d s t) = 1]"

definition generate_schedule ::
  "solver \<Rightarrow> employee list \<Rightarrow> task list \<Rightarrow> string list \<Rightarrow> string list \<Rightarrow> preferences \<Rightarrow> rules
     \<Rightarrow> entry list \<times> task list" where
  "generate_schedule solve employees tasks days shifts prefs rules =
     (let model = build_model employees tasks days shifts prefs rules;
          (status, val) = solve model
      in if status = OPTIMAL \<or> status = FEASIBLE then
           (let schedule = extract_schedule val employees tasks days shifts;
                assigned_task_ids = set (map task_id schedule);
                all_task_ids = set (map t_id tasks);
                unscheduled_task_ids = all_task_ids - assigned_task_ids;
                unscheduled_tasks = [t \<leftarrow> tasks. t_id t \<in> unscheduled_task_ids]
            in (schedule, unscheduled_tasks))
         else ([], tasks))"

section \<open>The contract of the external solver\<close>

text \<open>
  A valuation satisfies a constraint as the CP-SAT model checker defines it: at most one
  literal of the list is true, counted with multiplicity, so a literal listed twice must
  be false; a linear constraint compares the sum of the listed variables with its bound.
\<close>

fun holds :: "valuation \<Rightarrow> constr \<Rightarrow> bool" where
  "holds val (AtMostOne vs) = (sum_list (map val vs) \<le> 1)"
| "holds val (EqZero v) = (val v = 0)"
| "holds val (SumLe vs b) = (sum_list (map val vs) \<le> b)"

text \<open>A solution gives every Boolean variable 0 or 1 and satisfies every constraint.\<close>

definition feasible :: "cp_model \<Rightarrow> valuation \<Rightarrow> bool" where
  "feasible m val =
     ((\<forall>v \<in> set (variables m). val v = 0 \<or> val v = 1) \<and>
      (\<forall>c \<in> set (constraints m). holds val c))"

definition objective_value :: "cp_model \<Rightarrow> valuation \<Rightarrow> int" where
  "objective_value m val = (\<Sum>(v, c) \<leftarrow> objective m. val v * c)"

text \<open>
  What the function relies on when it reads \<open>solver.Value\<close> after the status
  \<open>OPTIMAL\<close> or \<open>FEASIBLE\<close>: the values reported are a solution of the model.
\<close>

definition solver_sound :: "solver \<Rightarrow> cp_model \<Rightarrow> bool" where
  "solver_sound solve m =
     (fst (solve m) = OPTIMAL \<or> fst (solve m) = FEASIBLE \<longrightarrow> feasible m (snd (solve m)))"

text \<open>
  The solver run to completion, as \<open>CpSolver()\<close> with its default parameters (no time
  limit) is: a model with a solution is answered \<open>OPTIMAL\<close> with a solution of maximal
  objective value, a model without one is answered \<open>INFEASIBLE\<close>.
\<close>

definition solver_exact :: "solver \<Rightarrow> cp_model \<Rightarrow> bool" where
  "solver_exact solve m =
     (if \<exists>val. feasible m val
      then fst (solve m) = OPTIMAL \<and> feasible m (snd (solve m)) \<and>
           (\<forall>val'. feasible m val' \<longrightarrow> objective_value m val' \<le> objective_value m (snd (solve m)))
      else fst (solve m) = INFEASIBLE)"

section \<open>Notions the properties are stated with\<close>

text \<open>
  The enumeration of the grid day-major, then by shift, then by employee, then by task,
  each in the order of its input list.
\<close>

definition canonical_grid ::
  "employee list \<Rightarrow> task list \<Rightarrow> string list \<Rightarrow> string list \<Rightarrow> entry list" where
  "canonical_grid employees tasks days shifts =
     [mk_entry d s emp t. d \<leftarrow> days, s \<leftarrow> shifts, emp \<leftarrow> employees, t \<leftarrow> tasks]"

text \<open>An employee whose unavailable days outside the grid are removed.\<close>

definition strip_out_of_grid :: "string list \<Rightarrow> employee \<Rightarrow> employee" where
  "strip_out_of_grid days emp =
     emp\<lparr>unavailable_days := [d \<leftarrow> unavailable_days emp. d \<in> set days]\<rparr>"

text \<open>The number of entries of a schedule that reference a task or an employee.\<close>

definition entries_of_task :: "int \<Rightarrow> entry list \<Rightarrow> nat" where
  "entries_of_task tid schedule = length [en \<leftarrow> schedule. task_id en = tid]"

definition entries_of_employee :: "int \<Rightarrow> entry list \<Rightarrow> nat" where
  "entries_of_employee eid schedule = length [en \<leftarrow> schedule. employee_id en = eid]"

text \<open>
  The objective value of the solution returned: the sum, over the placements that the
  extraction loop (lines 83-95) emits as schedule entries, of the two coefficients the
  objective (lines 63-73) gives a placement, the task's priority and the preference score
  of the pair. When the function returns the empty schedule the value is 0.
\<close>

definition achieved_objective ::
  "solver \<Rightarrow> employee list \<Rightarrow> task list \<Rightarrow> string list \<Rightarrow> string list \<Rightarrow> preferences \<Rightarrow> rules
     \<Rightarrow> int" where
  "achieved_objective solve employees tasks days shifts prefs rules =
     (let model = build_model employees tasks days shifts prefs rules;
          (status, val) = solve model
      in if status = OPTIMAL \<or> status = FEASIBLE then
           sum_list [priority t + preference prefs emp t.
                       d \<leftarrow> days, s \<leftarrow> shifts, emp \<leftarrow> employees, t \<leftarrow> tasks,
                       val (key emp d s t) = 1]
         else 0)"

text \<open>The preference map with the score of one pair increased; an absent pair counts 0.\<close>

definition raise_preference :: "preferences \<Rightarrow> int \<Rightarrow> int \<Rightarrow> int \<Rightarrow> preferences" where
  "raise_preference prefs eid tid delta =
     prefs((eid, tid) \<mapsto> (case prefs (eid, tid) of None \<Rightarrow> 0 | Some v \<Rightarrow> v) + delta)"

section \<open>Concrete inputs\<close>

definition emp_a :: employee where
  "emp_a = \<lparr> e_id = 1, e_name = ''Ann'', skills = [''A''], unavailable_days = [] \<rparr>"

definition task_a :: task where
  "task_a = \<lparr> t_id = 1, t_name = ''Audit'', required_skill = Some ''A'', priority = 1 \<rparr>"

definition rules7 :: rules where
  "rules7 = [''max_shifts_per_week'' \<mapsto> 7]"

text \<open>A task with no required skill and a negative priority.\<close>

definition task_bad :: task where
  "task_bad = \<lparr> t_id = 2, t_name = ''Broken'', required_skill = None, priority = - 5 \<rparr>"

text \<open>A solver answer that places task 1 with employee 1 on Monday morning.\<close>

definition monday_solver :: solver where
  "monday_solver m = (OPTIMAL, \<lambda>k. if k = (1, ''Mon'', ''Morning'', 1) then 1 else 0)"

text \<open>A solver answer that places nothing.\<close>

definition idle_solver :: solver where
  "idle_solver m = (OPTIMAL, \<lambda>k. 0)"

text \<open>A solver answer that reports no solution.\<close>

definition failing_solver :: solver where
  "failing_solver m = (INFEASIBLE, \<lambda>k. 0)"

section \<open>Auxiliary facts\<close>

lemma generate_schedule_cases:
  "generate_schedule solve employees tasks days shifts prefs rules =
     (let r = solve (build_model employees tasks days shifts prefs rules) in
      if fst r = OPTIMAL \<or> fst r = FEASIBLE then
        (extract_schedule (snd r) employees tasks days shifts,
         [t \<leftarrow> tasks.
            t_id t \<notin> task_id ` set (extract_schedule (snd r) employees tasks days shifts)])
      else ([], tasks))"
  by (auto simp: generate_schedule_def Let_def split: prod.splits intro: filter_cong)

lemma task_id_extract_subset:
  "task_id ` set (extract_schedule val employees tasks days shifts) \<subseteq> t_id ` set tasks"
  by (auto simp: extract_schedule_def mk_entry_def)

lemma concat_map_filter_guard:
  "concat (map (\<lambda>x. if P x then f x else []) (filter P xs)) =
   concat (map (\<lambda>x. if P x then f x else []) xs)"
  by (induction xs) auto

lemma strip_fields [simp]:
  "e_id (strip_out_of_grid days emp) = e_id emp"
  "e_name (strip_out_of_grid days emp) = e_name emp"
  "skills (strip_out_of_grid days emp) = skills emp"
  "unavailable_days (strip_out_of_grid days emp) = [d \<leftarrow> unavailable_days emp. d \<in> set days]"
  by (simp_all add: strip_out_of_grid_def)

lemma key_strip [simp]: "key (strip_out_of_grid days emp) = key emp"
  by (simp add: key_def fun_eq_iff)

lemma mk_entry_strip [simp]: "mk_entry d s (strip_out_of_grid days emp) = mk_entry d s emp"
  by (simp add: mk_entry_def fun_eq_iff)

lemma lacks_skill_strip [simp]: "lacks_skill (strip_out_of_grid days emp) = lacks_skill emp"
  by (simp add: lacks_skill_def fun_eq_iff)

lemma preference_strip [simp]:
  "preference prefs (strip_out_of_grid days emp) = preference prefs emp"
  by (simp add: preference_def fun_eq_iff)

lemma availability_gate_strip:
  "availability_gate (map (strip_out_of_grid days) employees) tasks days shifts =
   availability_gate employees tasks days shifts"
  by (simp add: availability_gate_def comp_def concat_map_filter_guard cong: if_cong)

lemma build_model_strip:
  "build_model (map (strip_out_of_grid days) employees) tasks days shifts prefs rules =
   build_model employees tasks days shifts prefs rules"
  by (simp add: build_model_def availability_gate_strip create_variables_def
      task_at_most_once_def skill_gate_def slot_at_most_once_def weekly_cap_def
      objective_terms_def comp_def cong: if_cong)

lemma extract_schedule_strip:
  "extract_schedule val (map (strip_out_of_grid days) employees) tasks days' shifts =
   extract_schedule val employees tasks days' shifts"
  by (simp add: extract_schedule_def comp_def cong: if_cong)

lemma subseq_concat_map:
  "(\<And>x. x \<in> set xs \<Longrightarrow> subseq (f x) (g x)) \<Longrightarrow>
   subseq (concat (map f xs)) (concat (map g xs))"
  by (induction xs) (auto intro: list_emb_append_mono)

lemma subseq_guarded_map:
  "subseq (concat (map (\<lambda>x. if P x then [f x] else []) xs)) (map f xs)"
  by (induction xs) auto

lemma extract_schedule_subseq:
  "subseq (extract_schedule val employees tasks days shifts)
          (canonical_grid employees tasks days shifts)"
  unfolding extract_schedule_def canonical_grid_def
  by (intro subseq_concat_map subseq_guarded_map)

section \<open>Properties of \<open>generate_schedule\<close>\<close>

text \<open>
  Claim C6. For every input and every answer of the solver, the task ids of the returned
  schedule and the task ids of the returned unscheduled list are disjoint and together
  are the ids of all input tasks; when the solver reports neither \<open>OPTIMAL\<close> nor
  \<open>FEASIBLE\<close>, the schedule is empty and the unscheduled list is the whole task list.
\<close>

theorem schedule_unscheduled_partition:
  "(case generate_schedule solve employees tasks days shifts prefs rules of
      (schedule, unscheduled) \<Rightarrow>
        task_id ` set schedule \<inter> t_id ` set unscheduled = {} \<and>
        task_id ` set schedule \<union> t_id ` set unscheduled = t_id ` set tasks) \<and>
   (fst (solve (build_model employees tasks days shifts prefs rules)) \<notin> {OPTIMAL, FEASIBLE}
      \<longrightarrow> generate_schedule solve employees tasks days shifts prefs rules = ([], tasks))"
proof -
  let ?r = "solve (build_model employees tasks days shifts prefs rules)"
  let ?S = "task_id ` set (extract_schedule (snd ?r) employees tasks days shifts)"
  have sub: "?S \<subseteq> t_id ` set tasks"
    by (rule task_id_extract_subset)
  have disj: "?S \<inter> t_id ` set [t \<leftarrow> tasks. t_id t \<notin> ?S] = {}"
    by force
  have cover: "?S \<union> t_id ` set [t \<leftarrow> tasks. t_id t \<notin> ?S] = t_id ` set tasks"
    using sub by auto
  show ?thesis
    using disj cover by (simp add: generate_schedule_cases Let_def)
qed

theorem schedule_unscheduled_partition_witness:
  "fst (failing_solver (build_model [emp_a] [task_a] DAYS SHIFTS Map.empty rules7))
     \<notin> {OPTIMAL, FEASIBLE} \<and>
   generate_schedule failing_solver [emp_a] [task_a] DAYS SHIFTS Map.empty rules7 = ([], [task_a])"
  using schedule_unscheduled_partition
    [where solve = failing_solver and employees = "[emp_a]" and tasks = "[task_a]"
       and days = DAYS and shifts = SHIFTS and prefs = Map.empty and rules = rules7]
  by (simp add: failing_solver_def)

text \<open>
  Claim C7. The returned schedule is a subsequence of the grid enumerated day-major, then
  by shift, then by employee, then by task, each in input order; the returned unscheduled
  list is a subsequence of the input task list.
\<close>

theorem output_order:
  "subseq (fst (generate_schedule solve employees tasks days shifts prefs rules))
          (canonical_grid employees tasks days shifts) \<and>
   subseq (snd (generate_schedule solve employees tasks days shifts prefs rules)) tasks"
  by (simp add: generate_schedule_cases Let_def extract_schedule_subseq)

text \<open>
  Claim C10. Removing from every employee the unavailable days that are not days of the
  grid changes neither the model handed to the solver nor the result returned. The
  function has no raising branch, so an out-of-grid day raises nothing.
\<close>

theorem out_of_grid_days_ignored:
  "build_model (map (strip_out_of_grid days) employees) tasks days shifts prefs rules =
   build_model employees tasks days shifts prefs rules \<and>
   generate_schedule solve (map (strip_out_of_grid days) employees) tasks days shifts prefs rules =
   generate_schedule solve employees tasks days shifts prefs rules"
  by (simp add: generate_schedule_cases build_model_strip extract_schedule_strip Let_def)

section \<open>Properties that rely on the solver\<close>

lemma in_extract_schedule:
  "en \<in> set (extract_schedule val employees tasks days shifts) \<longleftrightarrow>
     (\<exists>d \<in> set days. \<exists>s \<in> set shifts. \<exists>emp \<in> set employees. \<exists>t \<in> set tasks.
        val (key emp d s t) = 1 \<and> en = mk_entry d s emp t)"
  by (auto simp: extract_schedule_def)

lemma skill_gate_mem:
  "emp \<in> set employees \<Longrightarrow> d \<in> set days \<Longrightarrow> s \<in> set shifts \<Longrightarrow> t \<in> set tasks \<Longrightarrow>
   lacks_skill emp t \<Longrightarrow> EqZero (key emp d s t) \<in> set (skill_gate employees tasks days shifts)"
  by (auto simp: skill_gate_def)

lemma availability_gate_mem:
  "emp \<in> set employees \<Longrightarrow> d \<in> set (unavailable_days emp) \<Longrightarrow> d \<in> set days \<Longrightarrow>
   s \<in> set shifts \<Longrightarrow> t \<in> set tasks \<Longrightarrow>
   EqZero (key emp d s t) \<in> set (availability_gate employees tasks days shifts)"
  by (auto simp: availability_gate_def)

lemma feasible_constr:
  "feasible (build_model employees tasks days shifts prefs rules) val \<Longrightarrow>
   c \<in> set (task_at_most_once employees tasks days shifts) \<union>
       set (skill_gate employees tasks days shifts) \<union>
       set (availability_gate employees tasks days shifts) \<union>
       set (slot_at_most_once employees tasks days shifts) \<union>
       set (weekly_cap employees tasks days shifts rules) \<Longrightarrow> holds val c"
  by (auto simp: feasible_def build_model_def)

lemma feasible_bool:
  "feasible (build_model employees tasks days shifts prefs rules) val \<Longrightarrow>
   emp \<in> set employees \<Longrightarrow> d \<in> set days \<Longrightarrow> s \<in> set shifts \<Longrightarrow> t \<in> set tasks \<Longrightarrow>
   val (key emp d s t) = 0 \<or> val (key emp d s t) = 1"
  by (auto simp: feasible_def build_model_def create_variables_def)

text \<open>
  Claim C3. When the solver's answer is a solution of the model, every entry of the
  returned schedule names an employee and a task of the input, and every input employee
  and task with the entry's identities are eligible: the task's required skill is one of
  the employee's skills and the entry's day is not one of the employee's unavailable days.
\<close>

theorem placed_employee_eligible:
  assumes sound: "solver_sound solve (build_model employees tasks days shifts prefs rules)"
    and en: "en \<in> set (fst (generate_schedule solve employees tasks days shifts prefs rules))"
  shows "(\<exists>emp \<in> set employees. \<exists>t \<in> set tasks.
            e_id emp = employee_id en \<and> t_id t = task_id en) \<and>
         (\<forall>emp \<in> set employees. \<forall>t \<in> set tasks.
            e_id emp = employee_id en \<and> t_id t = task_id en \<longrightarrow>
            required_skill t \<in> Some ` set (skills emp) \<and> day en \<notin> set (unavailable_days emp))"
proof -
  let ?m = "build_model employees tasks days shifts prefs rules"
  let ?val = "snd (solve ?m)"
  have ok: "fst (solve ?m) = OPTIMAL \<or> fst (solve ?m) = FEASIBLE"
    using en by (auto simp: generate_schedule_cases Let_def split: if_splits)
  then have feas: "feasible ?m ?val"
    using sound by (simp add: solver_sound_def)
  from en ok have "en \<in> set (extract_schedule ?val employees tasks days shifts)"
    by (auto simp: generate_schedule_cases Let_def)
  then obtain d s emp0 t0 where d: "d \<in> set days" and s: "s \<in> set shifts"
    and emp0: "emp0 \<in> set employees" and t0: "t0 \<in> set tasks"
    and one: "?val (key emp0 d s t0) = 1" and en_eq: "en = mk_entry d s emp0 t0"
    unfolding in_extract_schedule by blast
  have first: "\<exists>emp \<in> set employees. \<exists>t \<in> set tasks.
      e_id emp = employee_id en \<and> t_id t = task_id en"
    using emp0 t0 en_eq by (auto simp: mk_entry_def)
  have second: "required_skill t \<in> Some ` set (skills emp) \<and> day en \<notin> set (unavailable_days emp)"
    if emp: "emp \<in> set employees" and t: "t \<in> set tasks"
      and ids: "e_id emp = employee_id en \<and> t_id t = task_id en" for emp t
  proof -
    have k: "key emp d s t = key emp0 d s t0"
      using ids en_eq by (simp add: key_def mk_entry_def)
    have "\<not> lacks_skill emp t"
    proof
      assume "lacks_skill emp t"
      then have "holds ?val (EqZero (key emp d s t))"
        using feasible_constr[OF feas] skill_gate_mem[OF emp d s t] by blast
      then show False using one k by simp
    qed
    moreover have "day en \<notin> set (unavailable_days emp)"
    proof
      assume "day en \<in> set (unavailable_days emp)"
      then have "d \<in> set (unavailable_days emp)" using en_eq by (simp add: mk_entry_def)
      then have "holds ?val (EqZero (key emp d s t))"
        using feasible_constr[OF feas] availability_gate_mem[OF emp _ d s t] by blast
      then show False using one k by simp
    qed
    ultimately show ?thesis by (simp add: lacks_skill_def)
  qed
  show ?thesis using first second by blast
qed

lemma monday_feasible:
  "feasible (build_model [emp_a] [task_a] DAYS SHIFTS Map.empty rules7) (snd (monday_solver m))"
  by (simp add: feasible_def build_model_def create_variables_def task_at_most_once_def skill_gate_def
      availability_gate_def slot_at_most_once_def weekly_cap_def max_shifts_def rules7_def
      monday_solver_def emp_a_def task_a_def DAYS_def SHIFTS_def key_def lacks_skill_def)

lemma count_concat_map:
  "int (length (filter P (concat (map f xs)))) = (\<Sum>x\<leftarrow>xs. int (length (filter P (f x))))"
  by (induction xs) auto

lemma sum_list_of_concat:
  fixes xss :: "int list list"
  shows "sum_list (concat xss) = (\<Sum>xs\<leftarrow>xss. sum_list xs)"
  by (induction xss) simp_all

lemma sum_list_swap_int:
  fixes f :: "'a \<Rightarrow> 'b \<Rightarrow> int"
  shows "(\<Sum>x\<leftarrow>xs. \<Sum>y\<leftarrow>ys. f x y) = (\<Sum>y\<leftarrow>ys. \<Sum>x\<leftarrow>xs. f x y)"
  by (induction xs) (simp_all add: sum_list_addf)

lemma sum_list_member_le:
  fixes f :: "'a \<Rightarrow> int"
  assumes "\<And>x. x \<in> set xs \<Longrightarrow> 0 \<le> f x" and "a \<in> set xs"
  shows "f a \<le> (\<Sum>x\<leftarrow>xs. f x)"
  using assms
proof (induction xs)
  case Nil
  then show ?case by simp
next
  case (Cons x xs)
  have nn: "0 \<le> (\<Sum>y\<leftarrow>xs. f y)"
    by (rule sum_list_nonneg) (use Cons.prems in auto)
  show ?case
  proof (cases "a = x")
    case True
    then show ?thesis using nn by simp
  next
    case False
    then have "f a \<le> (\<Sum>y\<leftarrow>xs. f y)" using Cons by auto
    moreover have "0 \<le> f x" using Cons.prems by simp
    ultimately show ?thesis by simp
  qed
qed

text \<open>The number of entries with a property, as a sum over the extraction loop.\<close>

lemma count_extract_schedule:
  "int (length (filter P (extract_schedule val employees tasks days shifts))) =
   (\<Sum>d\<leftarrow>days. \<Sum>s\<leftarrow>shifts. \<Sum>emp\<leftarrow>employees. \<Sum>t\<leftarrow>tasks.
      if val (key emp d s t) = 1 \<and> P (mk_entry d s emp t) then 1 else 0)"
  unfolding extract_schedule_def count_concat_map
  by (intro arg_cong[where f = sum_list] map_cong refl) (simp cong: if_cong)

lemma holds_task_at_most_once:
  assumes "feasible (build_model employees tasks days shifts prefs rules) val" "t \<in> set tasks"
  shows "(\<Sum>emp\<leftarrow>employees. \<Sum>d\<leftarrow>days. \<Sum>s\<leftarrow>shifts. val (key emp d s t)) \<le> 1"
proof -
  have "AtMostOne [key emp d s t. emp \<leftarrow> employees, d \<leftarrow> days, s \<leftarrow> shifts]
        \<in> set (task_at_most_once employees tasks days shifts)"
    using assms(2) by (auto simp: task_at_most_once_def)
  then have "holds val (AtMostOne [key emp d s t. emp \<leftarrow> employees, d \<leftarrow> days, s \<leftarrow> shifts])"
    using feasible_constr[OF assms(1)] by blast
  then show ?thesis
    by (simp add: map_concat sum_list_of_concat comp_def)
qed

lemma holds_slot_at_most_once:
  assumes "feasible (build_model employees tasks days shifts prefs rules) val"
    "emp \<in> set employees" "d \<in> set days" "s \<in> set shifts"
  shows "(\<Sum>t\<leftarrow>tasks. val (key emp d s t)) \<le> 1"
proof -
  have "AtMostOne [key emp d s t. t \<leftarrow> tasks]
        \<in> set (slot_at_most_once employees tasks days shifts)"
    using assms(2-4) by (auto simp: slot_at_most_once_def)
  then have "holds val (AtMostOne [key emp d s t. t \<leftarrow> tasks])"
    using feasible_constr[OF assms(1)] by blast
  then show ?thesis
    by (simp add: comp_def)
qed

lemma holds_weekly_cap:
  assumes "feasible (build_model employees tasks days shifts prefs rules) val" "emp \<in> set employees"
  shows "(\<Sum>d\<leftarrow>days. \<Sum>s\<leftarrow>shifts. \<Sum>t\<leftarrow>tasks. val (key emp d s t)) \<le> max_shifts rules"
proof -
  have "SumLe [key emp d s t. d \<leftarrow> days, s \<leftarrow> shifts, t \<leftarrow> tasks] (max_shifts rules)
        \<in> set (weekly_cap employees tasks days shifts rules)"
    using assms(2) by (auto simp: weekly_cap_def)
  then have "holds val (SumLe [key emp d s t. d \<leftarrow> days, s \<leftarrow> shifts, t \<leftarrow> tasks] (max_shifts rules))"
    using feasible_constr[OF assms(1)] by blast
  then show ?thesis
    by (simp add: map_concat sum_list_of_concat comp_def)
qed

lemma sum_list_all_zero:
  fixes f :: "'a \<Rightarrow> int"
  shows "(\<And>x. x \<in> set xs \<Longrightarrow> f x = 0) \<Longrightarrow> (\<Sum>x\<leftarrow>xs. f x) = 0"
  by (induction xs) simp_all

lemma same_task_in_slot_le:
  assumes feas: "feasible (build_model employees tasks days shifts prefs rules) val"
    and emp: "emp \<in> set employees" and d: "d \<in> set days" and s: "s \<in> set shifts"
    and t0: "t0 \<in> set tasks"
  shows "(\<Sum>t\<leftarrow>tasks. if val (key emp d s t) = 1 \<and> t_id t = t_id t0 then 1 else 0)
         \<le> val (key emp d s t0)"
proof -
  have bool: "val (key emp d s t) = 0 \<or> val (key emp d s t) = 1" if "t \<in> set tasks" for t
    using feasible_bool[OF feas emp d s that] .
  have same: "key emp d s t = key emp d s t0" if "t_id t = t_id t0" for t
    using that by (simp add: key_def)
  show ?thesis
  proof (cases "val (key emp d s t0) = 1")
    case True
    have "(\<Sum>t\<leftarrow>tasks. if val (key emp d s t) = 1 \<and> t_id t = t_id t0 then 1 else 0)
          \<le> (\<Sum>t\<leftarrow>tasks. val (key emp d s t))"
    proof (rule sum_list_mono)
      fix t assume "t \<in> set tasks"
      then show "(if val (key emp d s t) = 1 \<and> t_id t = t_id t0 then 1 else 0)
                 \<le> val (key emp d s t)"
        using bool[of t] by auto
    qed
    also have "\<dots> \<le> 1"
      by (rule holds_slot_at_most_once[OF feas emp d s])
    finally show ?thesis using True by simp
  next
    case False
    then have zero: "val (key emp d s t0) = 0" using bool[OF t0] by simp
    have "(\<Sum>t\<leftarrow>tasks. if val (key emp d s t) = 1 \<and> t_id t = t_id t0 then 1 else (0::int)) = 0"
    proof (rule sum_list_all_zero)
      fix t assume "t \<in> set tasks"
      show "(if val (key emp d s t) = 1 \<and> t_id t = t_id t0 then 1 else (0::int)) = 0"
      proof (cases "t_id t = t_id t0")
        case True
        then show ?thesis using zero same[of t] by simp
      next
        case False
        then show ?thesis by simp
      qed
    qed
    then show ?thesis using zero by simp
  qed
qed

text \<open>
  Claim C4. When the solver's answer is a solution of the model, the returned schedule has
  at most one entry with the identity of any given input task.
\<close>

theorem task_placed_at_most_once:
  assumes sound: "solver_sound solve (build_model employees tasks days shifts prefs rules)"
    and t0: "t0 \<in> set tasks"
  shows "entries_of_task (t_id t0)
           (fst (generate_schedule solve employees tasks days shifts prefs rules)) \<le> 1"
proof -
  let ?m = "build_model employees tasks days shifts prefs rules"
  let ?val = "snd (solve ?m)"
  show ?thesis
  proof (cases "fst (solve ?m) = OPTIMAL \<or> fst (solve ?m) = FEASIBLE")
    case False
    then show ?thesis
      by (simp add: generate_schedule_cases Let_def entries_of_task_def)
  next
    case True
    then have feas: "feasible ?m ?val"
      using sound by (simp add: solver_sound_def)
    have "int (entries_of_task (t_id t0) (extract_schedule ?val employees tasks days shifts)) =
        (\<Sum>d\<leftarrow>days. \<Sum>s\<leftarrow>shifts. \<Sum>emp\<leftarrow>employees. \<Sum>t\<leftarrow>tasks.
           if ?val (key emp d s t) = 1 \<and> t_id t = t_id t0 then 1 else 0)"
      unfolding entries_of_task_def count_extract_schedule by (simp add: mk_entry_def)
    also have "\<dots> \<le> (\<Sum>d\<leftarrow>days. \<Sum>s\<leftarrow>shifts. \<Sum>emp\<leftarrow>employees. ?val (key emp d s t0))"
      by (intro sum_list_mono same_task_in_slot_le[OF feas _ _ _ t0])
    also have "\<dots> = (\<Sum>d\<leftarrow>days. \<Sum>emp\<leftarrow>employees. \<Sum>s\<leftarrow>shifts. ?val (key emp d s t0))"
      by (intro arg_cong[where f = sum_list] map_cong refl sum_list_swap_int)
    also have "\<dots> = (\<Sum>emp\<leftarrow>employees. \<Sum>d\<leftarrow>days. \<Sum>s\<leftarrow>shifts. ?val (key emp d s t0))"
      by (rule sum_list_swap_int)
    also have "\<dots> \<le> 1"
      by (rule holds_task_at_most_once[OF feas t0])
    finally have "entries_of_task (t_id t0) (extract_schedule ?val employees tasks days shifts) \<le> 1"
      by simp
    then show ?thesis
      using True by (simp add: generate_schedule_cases Let_def)
  qed
qed

lemma same_employee_for_task_le:
  assumes feas: "feasible (build_model employees tasks days shifts prefs rules) val"
    and d: "d \<in> set days" and s: "s \<in> set shifts" and t: "t \<in> set tasks"
    and e0: "e0 \<in> set employees"
  shows "(\<Sum>emp\<leftarrow>employees. if val (key emp d s t) = 1 \<and> e_id emp = e_id e0 then 1 else 0)
         \<le> val (key e0 d s t)"
proof -
  have bool: "val (key emp d' s' t) = 0 \<or> val (key emp d' s' t) = 1"
    if "emp \<in> set employees" "d' \<in> set days" "s' \<in> set shifts" for emp d' s'
    using feasible_bool[OF feas that t] .
  have same: "key emp d s t = key e0 d s t" if "e_id emp = e_id e0" for emp
    using that by (simp add: key_def)
  show ?thesis
  proof (cases "val (key e0 d s t) = 1")
    case True
    have "(\<Sum>emp\<leftarrow>employees. if val (key emp d s t) = 1 \<and> e_id emp = e_id e0 then 1 else 0)
          \<le> (\<Sum>emp\<leftarrow>employees. val (key emp d s t))"
    proof (rule sum_list_mono)
      fix emp assume "emp \<in> set employees"
      then show "(if val (key emp d s t) = 1 \<and> e_id emp = e_id e0 then 1 else 0)
                 \<le> val (key emp d s t)"
        using bool[OF _ d s, of emp] by auto
    qed
    also have "\<dots> \<le> (\<Sum>emp\<leftarrow>employees. \<Sum>d'\<leftarrow>days. \<Sum>s'\<leftarrow>shifts. val (key emp d' s' t))"
    proof (rule sum_list_mono)
      fix emp assume emp: "emp \<in> set employees"
      have "val (key emp d s t) \<le> (\<Sum>s'\<leftarrow>shifts. val (key emp d s' t))"
        by (rule sum_list_member_le[where f = "\<lambda>s'. val (key emp d s' t)", OF _ s])
           (use bool[OF emp d] in force)
      also have "\<dots> \<le> (\<Sum>d'\<leftarrow>days. \<Sum>s'\<leftarrow>shifts. val (key emp d' s' t))"
      proof (rule sum_list_member_le[where f = "\<lambda>d'. \<Sum>s'\<leftarrow>shifts. val (key emp d' s' t)", OF _ d])
        fix d' assume d': "d' \<in> set days"
        show "0 \<le> (\<Sum>s'\<leftarrow>shifts. val (key emp d' s' t))"
          by (rule sum_list_nonneg) (use bool[OF emp d'] in force)
      qed
      finally show "val (key emp d s t)
                    \<le> (\<Sum>d'\<leftarrow>days. \<Sum>s'\<leftarrow>shifts. val (key emp d' s' t))" .
    qed
    also have "\<dots> \<le> 1"
      by (rule holds_task_at_most_once[OF feas t])
    finally show ?thesis using True by simp
  next
    case False
    then have zero: "val (key e0 d s t) = 0" using bool[OF e0 d s] by simp
    have "(\<Sum>emp\<leftarrow>employees.
             if val (key emp d s t) = 1 \<and> e_id emp = e_id e0 then 1 else (0::int)) = 0"
    proof (rule sum_list_all_zero)
      fix emp assume "emp \<in> set employees"
      show "(if val (key emp d s t) = 1 \<and> e_id emp = e_id e0 then 1 else (0::int)) = 0"
      proof (cases "e_id emp = e_id e0")
        case True
        then show ?thesis using zero same[of emp] by simp
      next
        case False
        then show ?thesis by simp
      qed
    qed
    then show ?thesis using zero by simp
  qed
qed

text \<open>
  Claim C5. When the rules contain \<open>max_shifts_per_week\<close> and the solver's answer is a
  solution of the model, the returned schedule has at most that many entries with the
  identity of any given input employee. The specification's data model has the
  configured value a positive integer; the bound is proved for every value from 0 on.
\<close>

theorem weekly_cap_respected:
  assumes sound: "solver_sound solve (build_model employees tasks days shifts prefs rules)"
    and cap: "rules ''max_shifts_per_week'' = Some k" and nonneg: "0 \<le> k"
    and e0: "e0 \<in> set employees"
  shows "int (entries_of_employee (e_id e0)
           (fst (generate_schedule solve employees tasks days shifts prefs rules))) \<le> k"
proof -
  let ?m = "build_model employees tasks days shifts prefs rules"
  let ?val = "snd (solve ?m)"
  show ?thesis
  proof (cases "fst (solve ?m) = OPTIMAL \<or> fst (solve ?m) = FEASIBLE")
    case False
    then show ?thesis
      using nonneg by (simp add: generate_schedule_cases Let_def entries_of_employee_def)
  next
    case True
    then have feas: "feasible ?m ?val"
      using sound by (simp add: solver_sound_def)
    have "int (entries_of_employee (e_id e0) (extract_schedule ?val employees tasks days shifts)) =
        (\<Sum>d\<leftarrow>days. \<Sum>s\<leftarrow>shifts. \<Sum>emp\<leftarrow>employees. \<Sum>t\<leftarrow>tasks.
           if ?val (key emp d s t) = 1 \<and> e_id emp = e_id e0 then 1 else 0)"
      unfolding entries_of_employee_def count_extract_schedule by (simp add: mk_entry_def)
    also have "\<dots> = (\<Sum>d\<leftarrow>days. \<Sum>s\<leftarrow>shifts. \<Sum>t\<leftarrow>tasks. \<Sum>emp\<leftarrow>employees.
           if ?val (key emp d s t) = 1 \<and> e_id emp = e_id e0 then 1 else 0)"
      by (intro arg_cong[where f = sum_list] map_cong refl sum_list_swap_int)
    also have "\<dots> \<le> (\<Sum>d\<leftarrow>days. \<Sum>s\<leftarrow>shifts. \<Sum>t\<leftarrow>tasks. ?val (key e0 d s t))"
      by (intro sum_list_mono same_employee_for_task_le[OF feas _ _ _ e0])
    also have "\<dots> \<le> max_shifts rules"
      by (rule holds_weekly_cap[OF feas e0])
    also have "\<dots> = k"
      using cap by (simp add: max_shifts_def)
    finally show ?thesis
      using True by (simp add: generate_schedule_cases Let_def)
  qed
qed

lemma monday_sound:
  "solver_sound monday_solver (build_model [emp_a] [task_a] DAYS SHIFTS Map.empty rules7)"
  unfolding solver_sound_def using monday_feasible by blast

lemma monday_schedule:
  "generate_schedule monday_solver [emp_a] [task_a] DAYS SHIFTS Map.empty rules7 =
     ([mk_entry ''Mon'' ''Morning'' emp_a task_a], [])"
  by (simp add: generate_schedule_cases Let_def extract_schedule_def monday_solver_def
      DAYS_def SHIFTS_def key_def emp_a_def task_a_def mk_entry_def)

lemma rules7_cap: "rules7 ''max_shifts_per_week'' = Some 7"
  by (simp add: rules7_def)

theorem placed_employee_eligible_witness:
  "solver_sound monday_solver (build_model [emp_a] [task_a] DAYS SHIFTS Map.empty rules7) \<and>
   mk_entry ''Mon'' ''Morning'' emp_a task_a
     \<in> set (fst (generate_schedule monday_solver [emp_a] [task_a] DAYS SHIFTS Map.empty rules7)) \<and>
   required_skill task_a \<in> Some ` set (skills emp_a) \<and>
   ''Mon'' \<notin> set (unavailable_days emp_a)"
  using placed_employee_eligible
    [where solve = monday_solver and employees = "[emp_a]" and tasks = "[task_a]"
       and days = DAYS and shifts = SHIFTS and prefs = Map.empty and rules = rules7
       and en = "mk_entry ''Mon'' ''Morning'' emp_a task_a", OF monday_sound]
  by (simp add: monday_sound monday_schedule mk_entry_def)

theorem task_placed_at_most_once_witness:
  "solver_sound monday_solver (build_model [emp_a] [task_a] DAYS SHIFTS Map.empty rules7) \<and>
   task_a \<in> set [task_a] \<and>
   entries_of_task (t_id task_a)
     (fst (generate_schedule monday_solver [emp_a] [task_a] DAYS SHIFTS Map.empty rules7)) \<le> 1"
  using task_placed_at_most_once
    [where solve = monday_solver and employees = "[emp_a]" and tasks = "[task_a]"
       and days = DAYS and shifts = SHIFTS and prefs = Map.empty and rules = rules7
       and ?t0.0 = task_a, OF monday_sound]
  by (simp add: monday_sound)

theorem weekly_cap_respected_witness:
  "solver_sound monday_solver (build_model [emp_a] [task_a] DAYS SHIFTS Map.empty rules7) \<and>
   rules7 ''max_shifts_per_week'' = Some 7 \<and> (0::int) \<le> 7 \<and> emp_a \<in> set [emp_a] \<and>
   int (entries_of_employee (e_id emp_a)
     (fst (generate_schedule monday_solver [emp_a] [task_a] DAYS SHIFTS Map.empty rules7))) \<le> 7"
  using weekly_cap_respected
    [where solve = monday_solver and employees = "[emp_a]" and tasks = "[task_a]"
       and days = DAYS and shifts = SHIFTS and prefs = Map.empty and rules = rules7
       and k = 7 and ?e0.0 = emp_a, OF monday_sound rules7_cap]
  by (simp add: monday_sound rules7_cap)

section \<open>The default cap and malformed tasks\<close>

text \<open>
  Claim C1, as amended. When the rules have no \<open>max_shifts_per_week\<close> entry, the weekly
  cap posted for every employee is 7, whatever the number of days and shifts.
\<close>

theorem default_cap_is_seven:
  "rules ''max_shifts_per_week'' = None \<Longrightarrow>
   weekly_cap employees tasks days shifts rules =
     [SumLe [key emp d s t. d \<leftarrow> days, s \<leftarrow> shifts, t \<leftarrow> tasks] 7. emp \<leftarrow> employees]"
  by (simp add: weekly_cap_def max_shifts_def)

theorem default_cap_is_seven_witness:
  "Map.empty ''max_shifts_per_week'' = (None :: int option) \<and>
   weekly_cap [emp_a] [task_a] DAYS SHIFTS Map.empty =
     [SumLe (create_variables [emp_a] [task_a] DAYS SHIFTS) 7]"
  using default_cap_is_seven
    [where rules = Map.empty and employees = "[emp_a]" and tasks = "[task_a]"
       and days = DAYS and shifts = SHIFTS]
  by (simp add: create_variables_def)

text \<open>
  Claim C1 as stated fails: on the fixed grid of 7 days and 2 shifts (14 slots) and with
  empty rules, the cap posted for the one employee is 7, and no constraint of the model
  bounds that employee's variables by 14.
\<close>

theorem default_cap_counterexample:
  "weekly_cap [emp_a] [task_a] DAYS SHIFTS Map.empty =
     [SumLe (create_variables [emp_a] [task_a] DAYS SHIFTS) 7] \<and>
   int (length DAYS * length SHIFTS) = 14 \<and>
   SumLe (create_variables [emp_a] [task_a] DAYS SHIFTS) (int (length DAYS * length SHIFTS))
     \<notin> set (constraints (build_model [emp_a] [task_a] DAYS SHIFTS Map.empty Map.empty))"
  by (simp add: weekly_cap_def max_shifts_def create_variables_def DAYS_def SHIFTS_def
      build_model_def task_at_most_once_def skill_gate_def availability_gate_def
      slot_at_most_once_def lacks_skill_def emp_a_def task_a_def key_def)

text \<open>
  Claim C2, as amended. The function validates nothing: for every input, one variable is
  created for each employee, day, shift and task; every task, whatever its priority, has
  its variables in the model and its priority as their coefficient in the objective; and a
  task with no required skill has each of its variables forced to 0 by the skill gate.
\<close>

theorem malformed_task_accepted:
  "length (variables (build_model employees tasks days shifts prefs rules)) =
     length employees * length days * length shifts * length tasks \<and>
   (\<forall>t \<in> set tasks. \<forall>emp \<in> set employees. \<forall>d \<in> set days. \<forall>s \<in> set shifts.
      key emp d s t \<in> set (variables (build_model employees tasks days shifts prefs rules)) \<and>
      (key emp d s t, priority t)
        \<in> set (objective (build_model employees tasks days shifts prefs rules)) \<and>
      (required_skill t = None \<longrightarrow>
         EqZero (key emp d s t)
           \<in> set (constraints (build_model employees tasks days shifts prefs rules))))"
proof -
  have len: "length (create_variables employees tasks days shifts) =
      length employees * length days * length shifts * length tasks"
    by (simp add: create_variables_def length_concat comp_def sum_list_triv algebra_simps)
  have gate: "EqZero (key emp d s t) \<in> set (skill_gate employees tasks days shifts)"
    if "t \<in> set tasks" "emp \<in> set employees" "d \<in> set days" "s \<in> set shifts"
      "required_skill t = None" for t emp d s
    using that by (intro skill_gate_mem) (auto simp: lacks_skill_def)
  show ?thesis
    using len gate
    by (auto simp: build_model_def create_variables_def objective_terms_def)
qed

theorem malformed_task_accepted_witness:
  "task_bad \<in> set [task_bad] \<and> emp_a \<in> set [emp_a] \<and> ''Mon'' \<in> set DAYS \<and>
   ''Morning'' \<in> set SHIFTS \<and> required_skill task_bad = None \<and>
   length (variables (build_model [emp_a] [task_bad] DAYS SHIFTS Map.empty rules7)) = 14 \<and>
   (key emp_a ''Mon'' ''Morning'' task_bad, - 5)
     \<in> set (objective (build_model [emp_a] [task_bad] DAYS SHIFTS Map.empty rules7)) \<and>
   EqZero (key emp_a ''Mon'' ''Morning'' task_bad)
     \<in> set (constraints (build_model [emp_a] [task_bad] DAYS SHIFTS Map.empty rules7))"
proof -
  have d: "''Mon'' \<in> set DAYS" and s: "''Morning'' \<in> set SHIFTS"
    by (simp_all add: DAYS_def SHIFTS_def)
  have n: "required_skill task_bad = None" and p: "priority task_bad = - 5"
    by (simp_all add: task_bad_def)
  have l: "length [emp_a] * length DAYS * length SHIFTS * length [task_bad] = 14"
    by (simp add: DAYS_def SHIFTS_def)
  note inst = malformed_task_accepted
    [where employees = "[emp_a]" and tasks = "[task_bad]" and days = DAYS and shifts = SHIFTS
       and prefs = Map.empty and rules = rules7]
  from inst have "length (variables (build_model [emp_a] [task_bad] DAYS SHIFTS Map.empty rules7)) = 14"
    using l by simp
  moreover from inst d s n p have
    "(key emp_a ''Mon'' ''Morning'' task_bad, - 5)
       \<in> set (objective (build_model [emp_a] [task_bad] DAYS SHIFTS Map.empty rules7)) \<and>
     EqZero (key emp_a ''Mon'' ''Morning'' task_bad)
       \<in> set (constraints (build_model [emp_a] [task_bad] DAYS SHIFTS Map.empty rules7))"
    by fastforce
  ultimately show ?thesis using d s n by simp
qed

text \<open>
  Claim C2 as stated fails: for a task with no required skill and priority -5, the 14
  variables are created, the model is handed to the solver, and the result is an ordinary
  pair of a schedule and an unscheduled list.
\<close>

theorem malformed_task_counterexample:
  "required_skill task_bad = None \<and> priority task_bad < 0 \<and>
   length (variables (build_model [emp_a] [task_bad] DAYS SHIFTS Map.empty rules7)) = 14 \<and>
   generate_schedule idle_solver [emp_a] [task_bad] DAYS SHIFTS Map.empty rules7 =
     ([], [task_bad])"
  by (simp add: generate_schedule_cases Let_def idle_solver_def extract_schedule_def
      build_model_def create_variables_def DAYS_def SHIFTS_def task_bad_def)

section \<open>Properties that rely on an optimal answer\<close>

lemma feasible_prefs_irrelevant:
  "feasible (build_model employees tasks days shifts prefs rules) val =
   feasible (build_model employees tasks days shifts prefs' rules) val"
  by (simp add: feasible_def build_model_def)

lemma objective_value_build_model:
  "objective_value (build_model employees tasks days shifts prefs rules) val =
   (\<Sum>emp\<leftarrow>employees. \<Sum>d\<leftarrow>days. \<Sum>s\<leftarrow>shifts. \<Sum>t\<leftarrow>tasks.
      val (key emp d s t) * (priority t + preference prefs emp t))"
  by (simp add: objective_value_def build_model_def objective_terms_def map_concat
      sum_list_of_concat comp_def sum_list_addf[symmetric] algebra_simps)

lemma length_extract_schedule:
  assumes feas: "feasible (build_model employees tasks days shifts prefs rules) val"
  shows "int (length (extract_schedule val employees tasks days shifts)) =
         (\<Sum>d\<leftarrow>days. \<Sum>s\<leftarrow>shifts. \<Sum>emp\<leftarrow>employees. \<Sum>t\<leftarrow>tasks. val (key emp d s t))"
proof -
  have "int (length (filter (\<lambda>_. True) (extract_schedule val employees tasks days shifts))) =
        (\<Sum>d\<leftarrow>days. \<Sum>s\<leftarrow>shifts. \<Sum>emp\<leftarrow>employees. \<Sum>t\<leftarrow>tasks.
           if val (key emp d s t) = 1 \<and> True then 1 else 0)"
    by (rule count_extract_schedule)
  also have "\<dots> = (\<Sum>d\<leftarrow>days. \<Sum>s\<leftarrow>shifts. \<Sum>emp\<leftarrow>employees. \<Sum>t\<leftarrow>tasks.
           val (key emp d s t))"
  proof (intro arg_cong[where f = sum_list] map_cong refl)
    fix d s emp t
    assume "d \<in> set days" "s \<in> set shifts" "emp \<in> set employees" "t \<in> set tasks"
    then show "(if val (key emp d s t) = 1 \<and> True then 1 else 0) = val (key emp d s t)"
      using feasible_bool[OF feas, of emp d s t] by auto
  qed
  finally show ?thesis by simp
qed

text \<open>One employee and one task: the objective is the coefficient times the number placed.\<close>

lemma single_objective:
  "objective_value (build_model [emp] [t] days shifts prefs rules) val =
   (priority t + preference prefs emp t) * (\<Sum>d\<leftarrow>days. \<Sum>s\<leftarrow>shifts. val (key emp d s t))"
  by (simp add: objective_value_build_model sum_list_mult_const[symmetric]
      sum_list_const_mult[symmetric] algebra_simps)

lemma single_placed_le_1:
  assumes "feasible (build_model [emp] [t] days shifts prefs rules) val"
  shows "(\<Sum>d\<leftarrow>days. \<Sum>s\<leftarrow>shifts. val (key emp d s t)) \<le> 1"
  using holds_task_at_most_once[OF assms, of t] by simp

lemma single_objective_le:
  assumes feas: "feasible (build_model [emp] [t] days shifts prefs rules) val"
    and c: "0 \<le> priority t + preference prefs emp t"
  shows "objective_value (build_model [emp] [t] days shifts prefs rules) val
         \<le> priority t + preference prefs emp t"
proof -
  have "(priority t + preference prefs emp t) * (\<Sum>d\<leftarrow>days. \<Sum>s\<leftarrow>shifts. val (key emp d s t))
        \<le> (priority t + preference prefs emp t) * 1"
    by (rule mult_left_mono[OF single_placed_le_1[OF feas] c])
  then show ?thesis by (simp add: single_objective)
qed

text \<open>The valuation that places the one task on Monday morning.\<close>

lemma first_slot_feasible:
  assumes "set (skills emp) = {''A''}" "unavailable_days emp = []"
    "required_skill t = Some ''A''" "rules ''max_shifts_per_week'' = Some 7"
  shows "feasible (build_model [emp] [t] DAYS SHIFTS prefs rules)
           (\<lambda>k. if k = key emp ''Mon'' ''Morning'' t then 1 else 0)"
  using assms
  by (simp add: feasible_def build_model_def create_variables_def task_at_most_once_def
      skill_gate_def availability_gate_def slot_at_most_once_def weekly_cap_def max_shifts_def
      DAYS_def SHIFTS_def key_def lacks_skill_def)

lemma first_slot_placed:
  "(\<Sum>d\<leftarrow>DAYS. \<Sum>s\<leftarrow>SHIFTS.
      (\<lambda>k. if k = key emp ''Mon'' ''Morning'' t then 1 else (0::int)) (key emp d s t)) = 1"
  by (simp add: DAYS_def SHIFTS_def key_def)

text \<open>
  Claim C8 (scenario A). One employee whose skills are exactly \<open>A\<close> and who is never
  unavailable, one task requiring \<open>A\<close> with priority 1, the fixed grid, no preferences
  and a cap of 7: when the solver runs to completion, the function returns exactly one
  schedule entry and an empty unscheduled list.
\<close>

theorem scenario_a:
  assumes emp: "set (skills emp) = {''A''}" "unavailable_days emp = []"
    and t: "required_skill t = Some ''A''" "priority t = 1"
    and cap: "rules ''max_shifts_per_week'' = Some 7"
    and exact: "solver_exact solve (build_model [emp] [t] DAYS SHIFTS Map.empty rules)"
  shows "\<exists>en. generate_schedule solve [emp] [t] DAYS SHIFTS Map.empty rules = ([en], [])"
proof -
  let ?m = "build_model [emp] [t] DAYS SHIFTS Map.empty rules"
  let ?val = "snd (solve ?m)"
  let ?v1 = "\<lambda>k. if k = key emp ''Mon'' ''Morning'' t then 1 else (0::int)"
  have c: "priority t + preference Map.empty emp t = 1"
    using t by (simp add: preference_def)
  have feas1: "feasible ?m ?v1"
    using emp t(1) cap by (rule first_slot_feasible)
  then have ex: "\<exists>val. feasible ?m val" by blast
  from exact ex have opt: "fst (solve ?m) = OPTIMAL" and feas: "feasible ?m ?val"
    and best: "objective_value ?m ?v1 \<le> objective_value ?m ?val"
    using feas1 by (simp_all add: solver_exact_def)
  have "objective_value ?m ?v1 = 1"
    unfolding single_objective c using first_slot_placed[of emp t] by simp
  then have "1 \<le> (\<Sum>d\<leftarrow>DAYS. \<Sum>s\<leftarrow>SHIFTS. ?val (key emp d s t))"
    using best unfolding single_objective c by simp
  then have one: "(\<Sum>d\<leftarrow>DAYS. \<Sum>s\<leftarrow>SHIFTS. ?val (key emp d s t)) = 1"
    using single_placed_le_1[OF feas] by simp
  have "int (length (extract_schedule ?val [emp] [t] DAYS SHIFTS)) = 1"
    unfolding length_extract_schedule[OF feas] using one by simp
  then have "length (extract_schedule ?val [emp] [t] DAYS SHIFTS) = Suc 0"
    by simp
  then obtain en where en: "extract_schedule ?val [emp] [t] DAYS SHIFTS = [en]"
    by (auto simp: length_Suc_conv)
  have "task_id en \<in> t_id ` set [t]"
    using task_id_extract_subset[of ?val "[emp]" "[t]" DAYS SHIFTS] en by auto
  then have tid: "task_id en = t_id t" by simp
  have "generate_schedule solve [emp] [t] DAYS SHIFTS Map.empty rules = ([en], [])"
    using opt en tid by (simp add: generate_schedule_cases Let_def)
  then show ?thesis by blast
qed

lemma monday_exact:
  assumes c: "0 \<le> priority task_a + preference prefs emp_a task_a"
  shows "solver_exact monday_solver (build_model [emp_a] [task_a] DAYS SHIFTS prefs rules7)"
proof -
  let ?m = "build_model [emp_a] [task_a] DAYS SHIFTS prefs rules7"
  have feas: "feasible ?m (snd (monday_solver ?m))"
    using monday_feasible[of ?m] feasible_prefs_irrelevant[of "[emp_a]" "[task_a]" DAYS SHIFTS prefs rules7 _ Map.empty]
    by simp
  have k: "key emp_a ''Mon'' ''Morning'' task_a = (1, ''Mon'', ''Morning'', 1)"
    by (simp add: key_def emp_a_def task_a_def)
  have val: "objective_value ?m (snd (monday_solver ?m)) = priority task_a + preference prefs emp_a task_a"
    unfolding single_objective using first_slot_placed[of emp_a task_a]
    by (simp add: monday_solver_def k)
  have best: "objective_value ?m val' \<le> objective_value ?m (snd (monday_solver ?m))"
    if "feasible ?m val'" for val'
    unfolding val by (rule single_objective_le[OF that c])
  have "fst (monday_solver ?m) = OPTIMAL" by (simp add: monday_solver_def)
  then show ?thesis
    unfolding solver_exact_def using feas best by auto
qed

theorem scenario_a_witness:
  "set (skills emp_a) = {''A''} \<and> unavailable_days emp_a = [] \<and>
   required_skill task_a = Some ''A'' \<and> priority task_a = 1 \<and>
   rules7 ''max_shifts_per_week'' = Some 7 \<and>
   solver_exact monday_solver (build_model [emp_a] [task_a] DAYS SHIFTS Map.empty rules7) \<and>
   (\<exists>en. generate_schedule monday_solver [emp_a] [task_a] DAYS SHIFTS Map.empty rules7 = ([en], []))"
proof -
  have a: "set (skills emp_a) = {''A''}" and b: "unavailable_days emp_a = []"
    by (simp_all add: emp_a_def)
  have c: "required_skill task_a = Some ''A''" and d: "priority task_a = 1"
    by (simp_all add: task_a_def)
  have e: "solver_exact monday_solver (build_model [emp_a] [task_a] DAYS SHIFTS Map.empty rules7)"
    by (rule monday_exact) (simp add: task_a_def preference_def)
  show ?thesis
    using scenario_a[OF a b c d rules7_cap e] a b c d rules7_cap e by simp
qed

lemma sum_list_rotate3:
  fixes f :: "'a \<Rightarrow> 'b \<Rightarrow> 'c \<Rightarrow> int"
  shows "(\<Sum>d\<leftarrow>ds. \<Sum>s\<leftarrow>ss. \<Sum>e\<leftarrow>es. f e d s) = (\<Sum>e\<leftarrow>es. \<Sum>d\<leftarrow>ds. \<Sum>s\<leftarrow>ss. f e d s)"
proof -
  have "(\<Sum>d\<leftarrow>ds. \<Sum>s\<leftarrow>ss. \<Sum>e\<leftarrow>es. f e d s) = (\<Sum>d\<leftarrow>ds. \<Sum>e\<leftarrow>es. \<Sum>s\<leftarrow>ss. f e d s)"
    by (intro arg_cong[where f = sum_list] map_cong refl sum_list_swap_int)
  also have "\<dots> = (\<Sum>e\<leftarrow>es. \<Sum>d\<leftarrow>ds. \<Sum>s\<leftarrow>ss. f e d s)"
    by (rule sum_list_swap_int)
  finally show ?thesis .
qed

lemma placements_value:
  assumes feas: "feasible (build_model employees tasks days shifts prefs rules) val"
  shows "sum_list [priority t + preference prefs emp t.
                     d \<leftarrow> days, s \<leftarrow> shifts, emp \<leftarrow> employees, t \<leftarrow> tasks,
                     val (key emp d s t) = 1] =
         objective_value (build_model employees tasks days shifts prefs rules) val"
proof -
  have "sum_list [priority t + preference prefs emp t.
                     d \<leftarrow> days, s \<leftarrow> shifts, emp \<leftarrow> employees, t \<leftarrow> tasks,
                     val (key emp d s t) = 1] =
        (\<Sum>d\<leftarrow>days. \<Sum>s\<leftarrow>shifts. \<Sum>emp\<leftarrow>employees. \<Sum>t\<leftarrow>tasks.
           sum_list (if val (key emp d s t) = 1 then [priority t + preference prefs emp t] else []))"
    by (simp add: sum_list_of_concat map_concat comp_def)
  also have "\<dots> = (\<Sum>d\<leftarrow>days. \<Sum>s\<leftarrow>shifts. \<Sum>emp\<leftarrow>employees. \<Sum>t\<leftarrow>tasks.
           val (key emp d s t) * (priority t + preference prefs emp t))"
  proof (intro arg_cong[where f = sum_list] map_cong refl)
    fix d s emp t
    assume "d \<in> set days" "s \<in> set shifts" "emp \<in> set employees" "t \<in> set tasks"
    then show "sum_list (if val (key emp d s t) = 1 then [priority t + preference prefs emp t] else [])
               = val (key emp d s t) * (priority t + preference prefs emp t)"
      using feasible_bool[OF feas, of emp d s t] by auto
  qed
  also have "\<dots> = (\<Sum>emp\<leftarrow>employees. \<Sum>d\<leftarrow>days. \<Sum>s\<leftarrow>shifts. \<Sum>t\<leftarrow>tasks.
           val (key emp d s t) * (priority t + preference prefs emp t))"
    by (rule sum_list_rotate3)
  finally show ?thesis
    by (simp add: objective_value_build_model)
qed

lemma achieved_objective_cases:
  "achieved_objective solve employees tasks days shifts prefs rules =
     (let r = solve (build_model employees tasks days shifts prefs rules) in
      if fst r = OPTIMAL \<or> fst r = FEASIBLE then
        sum_list [priority t + preference prefs emp t.
                    d \<leftarrow> days, s \<leftarrow> shifts, emp \<leftarrow> employees, t \<leftarrow> tasks,
                    snd r (key emp d s t) = 1]
      else 0)"
  by (simp add: achieved_objective_def Let_def split: prod.splits)

lemma preference_raise_ge:
  "0 \<le> delta \<Longrightarrow>
   preference prefs emp t \<le> preference (raise_preference prefs eid tid delta) emp t"
  by (simp add: preference_def raise_preference_def)

lemma objective_value_mono:
  assumes feas: "feasible (build_model employees tasks days shifts prefs rules) val"
    and le: "\<And>emp t. preference prefs emp t \<le> preference prefs' emp t"
  shows "objective_value (build_model employees tasks days shifts prefs rules) val
         \<le> objective_value (build_model employees tasks days shifts prefs' rules) val"
  unfolding objective_value_build_model
proof (intro sum_list_mono)
  fix emp d s t
  assume "emp \<in> set employees" "d \<in> set days" "s \<in> set shifts" "t \<in> set tasks"
  then have "0 \<le> val (key emp d s t)"
    using feasible_bool[OF feas, of emp d s t] by auto
  then show "val (key emp d s t) * (priority t + preference prefs emp t)
             \<le> val (key emp d s t) * (priority t + preference prefs' emp t)"
    using le[of emp t] by (intro mult_left_mono) simp_all
qed

text \<open>
  Claim C9. Increasing the preference score of one pair of an employee id and a task id
  by a positive amount, all else fixed, does not decrease the objective value of the
  solution returned, when the solver runs to completion on both inputs.
\<close>

theorem objective_monotone:
  assumes delta: "0 < delta"
    and exact: "solver_exact solve (build_model employees tasks days shifts prefs rules)"
    and exact': "solver_exact solve
       (build_model employees tasks days shifts (raise_preference prefs eid tid delta) rules)"
  shows "achieved_objective solve employees tasks days shifts prefs rules
         \<le> achieved_objective solve employees tasks days shifts
              (raise_preference prefs eid tid delta) rules"
proof -
  let ?prefs' = "raise_preference prefs eid tid delta"
  let ?m = "build_model employees tasks days shifts prefs rules"
  let ?m' = "build_model employees tasks days shifts ?prefs' rules"
  have same: "feasible ?m val = feasible ?m' val" for val
    by (rule feasible_prefs_irrelevant)
  show ?thesis
  proof (cases "\<exists>val. feasible ?m val")
    case False
    then have "fst (solve ?m) = INFEASIBLE" "fst (solve ?m') = INFEASIBLE"
      using exact exact' same by (simp_all add: solver_exact_def)
    then show ?thesis
      by (simp add: achieved_objective_cases Let_def)
  next
    case True
    then have True': "\<exists>val. feasible ?m' val" using same by simp
    from exact True have opt: "fst (solve ?m) = OPTIMAL" and feas: "feasible ?m (snd (solve ?m))"
      by (simp_all add: solver_exact_def)
    from exact' True' have opt': "fst (solve ?m') = OPTIMAL"
      and feas': "feasible ?m' (snd (solve ?m'))"
      and best': "\<And>val. feasible ?m' val \<Longrightarrow>
          objective_value ?m' val \<le> objective_value ?m' (snd (solve ?m'))"
      by (simp_all add: solver_exact_def)
    have "achieved_objective solve employees tasks days shifts prefs rules =
          objective_value ?m (snd (solve ?m))"
      using opt placements_value[OF feas] by (simp add: achieved_objective_cases Let_def)
    also have "\<dots> \<le> objective_value ?m' (snd (solve ?m))"
      by (rule objective_value_mono[OF feas]) (use delta in \<open>simp add: preference_raise_ge\<close>)
    also have "\<dots> \<le> objective_value ?m' (snd (solve ?m'))"
      using best' feas same by simp
    also have "\<dots> = achieved_objective solve employees tasks days shifts ?prefs' rules"
      using opt' placements_value[OF feas'] by (simp add: achieved_objective_cases Let_def)
    finally show ?thesis .
  qed
qed

theorem objective_monotone_witness:
  "(0::int) < 3 \<and>
   solver_exact monday_solver (build_model [emp_a] [task_a] DAYS SHIFTS Map.empty rules7) \<and>
   solver_exact monday_solver
     (build_model [emp_a] [task_a] DAYS SHIFTS (raise_preference Map.empty 1 1 3) rules7) \<and>
   achieved_objective monday_solver [emp_a] [task_a] DAYS SHIFTS Map.empty rules7 = 1 \<and>
   achieved_objective monday_solver [emp_a] [task_a] DAYS SHIFTS
     (raise_preference Map.empty 1 1 3) rules7 = 4 \<and>
   achieved_objective monday_solver [emp_a] [task_a] DAYS SHIFTS Map.empty rules7
     \<le> achieved_objective monday_solver [emp_a] [task_a] DAYS SHIFTS
          (raise_preference Map.empty 1 1 3) rules7"
proof -
  have e: "solver_exact monday_solver (build_model [emp_a] [task_a] DAYS SHIFTS Map.empty rules7)"
    by (rule monday_exact) (simp add: task_a_def preference_def)
  have e': "solver_exact monday_solver
     (build_model [emp_a] [task_a] DAYS SHIFTS (raise_preference Map.empty 1 1 3) rules7)"
    by (rule monday_exact)
       (simp add: task_a_def emp_a_def preference_def raise_preference_def)
  have v: "achieved_objective monday_solver [emp_a] [task_a] DAYS SHIFTS Map.empty rules7 = 1"
    by (simp add: achieved_objective_cases Let_def monday_solver_def DAYS_def SHIFTS_def
        key_def emp_a_def task_a_def preference_def)
  have v': "achieved_objective monday_solver [emp_a] [task_a] DAYS SHIFTS
     (raise_preference Map.empty 1 1 3) rules7 = 4"
    by (simp add: achieved_objective_cases Let_def monday_solver_def DAYS_def SHIFTS_def
        key_def emp_a_def task_a_def preference_def raise_preference_def)
  have d: "(0::int) < 3" by simp
  show ?thesis
    using objective_monotone[OF d e e'] e e' v v' by simp
qed

end
